theory Spec2Isabelle
  imports Main "HOL-Library.Word"
begin

unbundle bit_operations_syntax

section \<open>The stream of a yamux session (stream.go)\<close>

text \<open>
  The embedding follows \<^verbatim>\<open>stream.go\<close> function by function. One stream is a record
  of the fields of the Go struct. The mutexes, the scratch headers and the error
  channels are left out: every function below is one atomic step of one goroutine, which
  is the granularity the locks of the source enforce on the fields they guard. A call
  that would park in a \<^verbatim>\<open>select\<close> returns the status \<open>Blocked\<close>; which case of
  the \<^verbatim>\<open>select\<close> fires afterwards is an input (\<open>wake\<close>) of the function that
  resumes the call.
\<close>

subsection \<open>Scalars, constants and errors\<close>

type_synonym u32 = "32 word"
type_synonym u16 = "16 word"
type_synonym byte = "8 word"

datatype streamState =
    streamInit
  | streamSYNSent
  | streamSYNReceived
  | streamEstablished
  | streamLocalClose
  | streamRemoteClose
  | streamClosed
  | streamReset

text \<open>
  Modelled from the spec: the flag bits, the frame types, the initial window and the
  error values live in \<^verbatim>\<open>const.go\<close>, which is not part of the sources at hand. The
  spec gives \<open>SYN=0x1\<close>, \<open>ACK=0x2\<close>, \<open>FIN=0x4\<close>, \<open>RST=0x8\<close> and
  \<open>InitialStreamWindow = 262144\<close>. The source spells the timeout error in two ways
  (\<^verbatim>\<open>timeoutError{}\<close> at the entry of a call, \<^verbatim>\<open>ErrTimeout\<close> in the select), so
  both are kept apart here.
\<close>

definition flagSYN :: u16 where "flagSYN = 1"
definition flagACK :: u16 where "flagACK = 2"
definition flagFIN :: u16 where "flagFIN = 4"
definition flagRST :: u16 where "flagRST = 8"

definition initialStreamWindow :: u32 where "initialStreamWindow = 262144"

datatype msgType = typeData | typeWindowUpdate

datatype error =
    timeoutError
  | ErrTimeout
  | ErrStreamClosed
  | ErrConnectionReset
  | ErrRecvWindowExceeded
  | ErrUnexpectedFlag
  | EOF
  | ErrSession nat
  | ErrTransport nat

subsection \<open>The session as the stream sees it\<close>

text \<open>
  A frame is what \<^verbatim>\<open>header.encode(type, flags, id, length)\<close> and the optional body
  hand to the session.
\<close>

record frame =
  ftype :: msgType
  fflags :: u16
  fid :: u32
  flength :: u32
  fbody :: "byte list"

datatype logline =
    LogUnexpectedFIN streamState
  | LogRecvWindowExceeded u32 u32 u32
  | LogReadFailed error

text \<open>
  Modelled from the spec: the session (\<^verbatim>\<open>session.go\<close>) is not part of the sources at
  hand. The stream uses five things of it: \<^verbatim>\<open>config.MaxStreamWindowSize\<close>,
  \<^verbatim>\<open>waitForSendErr\<close> (the spec's \<open>sendFrame\<close>: serialize one outbound frame, report
  the per-frame error), \<^verbatim>\<open>closeStream(id)\<close>, \<^verbatim>\<open>establishStream(id)\<close> and the
  logger. The record keeps what the stream handed over, in order: \<open>outbox\<close> has every
  frame passed to \<^verbatim>\<open>waitForSendErr\<close>, and \<open>sendResults\<close> are the answers the
  session will give to the coming calls (\<open>None\<close> is \<^verbatim>\<open>nil\<close>; an exhausted list
  answers \<^verbatim>\<open>nil\<close>).
\<close>

record Session =
  MaxStreamWindowSize :: u32
  outbox :: "frame list"
  sendResults :: "error option list"
  closedStreams :: "u32 list"
  establishedStreams :: "u32 list"
  logger :: "logline list"

definition waitForSendErr :: "frame \<Rightarrow> Session \<Rightarrow> error option \<times> Session" where
  "waitForSendErr f ss =
     (case sendResults ss of
        [] \<Rightarrow> (None, ss\<lparr>outbox := outbox ss @ [f]\<rparr>)
      | r # rs \<Rightarrow> (r, ss\<lparr>outbox := outbox ss @ [f], sendResults := rs\<rparr>))"

definition closeStream :: "u32 \<Rightarrow> Session \<Rightarrow> Session" where
  "closeStream i ss = ss\<lparr>closedStreams := closedStreams ss @ [i]\<rparr>"

definition establishStream :: "u32 \<Rightarrow> Session \<Rightarrow> Session" where
  "establishStream i ss = ss\<lparr>establishedStreams := establishedStreams ss @ [i]\<rparr>"

definition Printf :: "logline \<Rightarrow> Session \<Rightarrow> Session" where
  "Printf l ss = ss\<lparr>logger := logger ss @ [l]\<rparr>"

subsection \<open>The stream\<close>

text \<open>
  Instants are integers (nanoseconds on the wall clock), \<open>0\<close> being the zero
  \<^verbatim>\<open>time.Time\<close>. A \<^verbatim>\<open>*time.Timer\<close> is a handle into the timers the Go runtime has
  armed; \<open>timers\<close> lists the armed ones with the instant they fire at and the callback
  they run, \<open>nextTimer\<close> is the next fresh handle.
\<close>

datatype timerFunc = ReadTimedOut | WriteTimedOut

record Stream =
  recvWindow :: u32
  sendWindow :: u32
  stream_id :: u32
  session :: Session
  state :: streamState
  recvBuf :: "byte list option"
  recvNotifyCh :: bool
  sendNotifyCh :: bool
  readTimer :: "nat option"
  readTimedOut :: u32
  writeTimer :: "nat option"
  writeTimedOut :: u32
  timers :: "(nat \<times> int \<times> timerFunc) list"
  nextTimer :: nat

datatype status = Done "error option" | Blocked

datatype wake = Notified | TimedOut

datatype 'a go = Ret 'a | Panic string

definition newStream :: "Session \<Rightarrow> u32 \<Rightarrow> streamState \<Rightarrow> Stream" where
  "newStream sess i st =
     \<lparr>recvWindow = initialStreamWindow, sendWindow = initialStreamWindow,
      stream_id = i, session = sess, state = st, recvBuf = None,
      recvNotifyCh = False, sendNotifyCh = False,
      readTimer = None, readTimedOut = 0, writeTimer = None, writeTimedOut = 0,
      timers = [], nextTimer = 0\<rparr>"

definition StreamID :: "Stream \<Rightarrow> u32" where
  "StreamID s = stream_id s"

text \<open>
  Modelled from the spec: \<^verbatim>\<open>asyncNotify\<close> (\<^verbatim>\<open>util.go\<close>, not at hand) is a
  non-blocking send on a channel of capacity one: "an additional wake while one is
  pending is dropped". A channel is the flag "a wake is pending".
\<close>

definition notifyWaiting :: "Stream \<Rightarrow> Stream" where
  "notifyWaiting s = s\<lparr>recvNotifyCh := True, sendNotifyCh := True\<rparr>"

subsection \<open>Deadline flags\<close>

definition isReadTimedOut :: "Stream \<Rightarrow> bool" where
  "isReadTimedOut s = (readTimedOut s \<noteq> 0)"

definition setReadTimedOut :: "bool \<Rightarrow> Stream \<Rightarrow> Stream" where
  "setReadTimedOut timedOut s =
     (if timedOut then s\<lparr>readTimedOut := 1\<rparr> else s\<lparr>readTimedOut := 0\<rparr>)"

definition isWriteTimedOut :: "Stream \<Rightarrow> bool" where
  "isWriteTimedOut s = (writeTimedOut s \<noteq> 0)"

definition setWriteTimedOut :: "bool \<Rightarrow> Stream \<Rightarrow> Stream" where
  "setWriteTimedOut timedOut s =
     (if timedOut then s\<lparr>writeTimedOut := 1\<rparr> else s\<lparr>writeTimedOut := 0\<rparr>)"

subsection \<open>Flags of outbound and inbound frames\<close>

definition sendFlags :: "Stream \<Rightarrow> u16 \<times> Stream" where
  "sendFlags s =
     (case state s of
        streamInit \<Rightarrow> (0 OR flagSYN, s\<lparr>state := streamSYNSent\<rparr>)
      | streamSYNReceived \<Rightarrow> (0 OR flagACK, s\<lparr>state := streamEstablished\<rparr>)
      | _ \<Rightarrow> (0, s))"

text \<open>
  \<^verbatim>\<open>processFlags\<close> is three \<^verbatim>\<open>if\<close> blocks in a row. The FIN block is the only one
  that returns early; the deferred \<^verbatim>\<open>closeStream\<close> runs on every way out.
\<close>

definition processFlags_ACK :: "Stream \<Rightarrow> Stream" where
  "processFlags_ACK s =
     (let s1 = (if state s = streamSYNSent then s\<lparr>state := streamEstablished\<rparr> else s)
      in s1\<lparr>session := establishStream (stream_id s1) (session s1)\<rparr>)"

definition processFlags_FIN :: "Stream \<Rightarrow> error option \<times> bool \<times> Stream" where
  "processFlags_FIN s =
     (case state s of
        streamSYNSent \<Rightarrow> (None, False, notifyWaiting (s\<lparr>state := streamRemoteClose\<rparr>))
      | streamSYNReceived \<Rightarrow> (None, False, notifyWaiting (s\<lparr>state := streamRemoteClose\<rparr>))
      | streamEstablished \<Rightarrow> (None, False, notifyWaiting (s\<lparr>state := streamRemoteClose\<rparr>))
      | streamLocalClose \<Rightarrow> (None, True, notifyWaiting (s\<lparr>state := streamClosed\<rparr>))
      | _ \<Rightarrow> (Some ErrUnexpectedFlag, False,
               s\<lparr>session := Printf (LogUnexpectedFIN (state s)) (session s)\<rparr>))"

definition processFlags_RST :: "Stream \<Rightarrow> Stream" where
  "processFlags_RST s = notifyWaiting (s\<lparr>state := streamReset\<rparr>)"

definition processFlags :: "u16 \<Rightarrow> Stream \<Rightarrow> error option \<times> Stream" where
  "processFlags flags s =
     (let s1 = (if flags AND flagACK = flagACK then processFlags_ACK s else s);
          (err, closeStream1, s2) =
            (if flags AND flagFIN = flagFIN then processFlags_FIN s1 else (None, False, s1))
      in case err of
           Some e \<Rightarrow> (Some e, s2)
         | None \<Rightarrow>
             (let (closeStream2, s3) =
                    (if flags AND flagRST = flagRST then (True, processFlags_RST s2)
                     else (closeStream1, s2))
              in (None,
                  if closeStream2
                  then s3\<lparr>session := closeStream (stream_id s3) (session s3)\<rparr>
                  else s3)))"

subsection \<open>Window updates and FIN\<close>

definition sendWindowUpdate :: "Stream \<Rightarrow> error option \<times> Stream" where
  "sendWindowUpdate s =
     (let maxw = MaxStreamWindowSize (session s);
          bufLen = (case recvBuf s of None \<Rightarrow> 0 | Some buf \<Rightarrow> (of_nat (length buf) :: u32));
          delta = (maxw - bufLen) - recvWindow s;
          (flags, s1) = sendFlags s
      in if delta < maxw div 2 \<and> flags = 0 then (None, s1)
         else
           (let s2 = s1\<lparr>recvWindow := recvWindow s1 + delta\<rparr>;
                (err, ss) = waitForSendErr
                   \<lparr>ftype = typeWindowUpdate, fflags = flags, fid = stream_id s2,
                    flength = delta, fbody = []\<rparr> (session s2)
            in (err, s2\<lparr>session := ss\<rparr>)))"

definition sendClose :: "Stream \<Rightarrow> error option \<times> Stream" where
  "sendClose s =
     (let (flags0, s1) = sendFlags s;
          flags = flags0 OR flagFIN;
          (err, ss) = waitForSendErr
             \<lparr>ftype = typeWindowUpdate, fflags = flags, fid = stream_id s1,
              flength = 0, fbody = []\<rparr> (session s1)
      in (err, s1\<lparr>session := ss\<rparr>))"

subsection \<open>Read\<close>

text \<open>
  \<open>Read n\<close> is \<^verbatim>\<open>Read(b)\<close> with \<open>n = len(b)\<close>; the result is the count, the bytes
  copied into \<^verbatim>\<open>b\<close>, and the error or \<open>Blocked\<close>. \<open>Read_loop\<close> is one pass of the
  \<^verbatim>\<open>for\<close> body down to the \<^verbatim>\<open>select\<close>, \<open>Read_select\<close> the \<^verbatim>\<open>select\<close>.
  \<^verbatim>\<open>bytes.Buffer.Read\<close> on a non-empty buffer copies \<open>min(len(b), Len())\<close> bytes
  from its front. The deferred \<^verbatim>\<open>asyncNotify(s.recvNotifyCh)\<close> runs on every return.
  The goroutine of \<^verbatim>\<open>timeoutObserver\<close> closes the \<^verbatim>\<open>timeout\<close> channel at a tick
  at which the deadline flag is set; \<open>TimedOut\<close> is the \<^verbatim>\<open>select\<close> taking that
  channel, \<open>Notified\<close> the \<^verbatim>\<open>select\<close> taking the wake that is pending.
\<close>

definition recvBuf_empty :: "Stream \<Rightarrow> bool" where
  "recvBuf_empty s = (case recvBuf s of None \<Rightarrow> True | Some buf \<Rightarrow> length buf = 0)"

definition Read_return :: "nat \<times> byte list \<times> error option \<Rightarrow> Stream
    \<Rightarrow> (nat \<times> byte list \<times> status) \<times> Stream" where
  "Read_return r s =
     (case r of (n, bs, err) \<Rightarrow> ((n, bs, Done err), s\<lparr>recvNotifyCh := True\<rparr>))"

definition Read_data :: "nat \<Rightarrow> Stream \<Rightarrow> (nat \<times> byte list \<times> status) \<times> Stream" where
  "Read_data n s =
     (case recvBuf s of
        None \<Rightarrow> ((0, [], Blocked), s)
      | Some buf \<Rightarrow>
          if length buf = 0 then ((0, [], Blocked), s)
          else
            (let k = min n (length buf);
                 (err, s1) = sendWindowUpdate (s\<lparr>recvBuf := Some (drop k buf)\<rparr>)
             in Read_return (k, take k buf, err) s1))"

definition Read_loop :: "nat \<Rightarrow> Stream \<Rightarrow> (nat \<times> byte list \<times> status) \<times> Stream" where
  "Read_loop n s =
     (case state s of
        streamLocalClose \<Rightarrow>
          if recvBuf_empty s then Read_return (0, [], Some EOF) s else Read_data n s
      | streamRemoteClose \<Rightarrow>
          if recvBuf_empty s then Read_return (0, [], Some EOF) s else Read_data n s
      | streamClosed \<Rightarrow>
          if recvBuf_empty s then Read_return (0, [], Some EOF) s else Read_data n s
      | streamReset \<Rightarrow> Read_return (0, [], Some ErrConnectionReset) s
      | _ \<Rightarrow> Read_data n s)"

definition Read_select :: "wake \<Rightarrow> nat \<Rightarrow> Stream \<Rightarrow> (nat \<times> byte list \<times> status) \<times> Stream" where
  "Read_select w n s =
     (case w of
        Notified \<Rightarrow> Read_loop n (s\<lparr>recvNotifyCh := False\<rparr>)
      | TimedOut \<Rightarrow> Read_return (0, [], Some ErrTimeout) s)"

definition Read :: "nat \<Rightarrow> Stream \<Rightarrow> (nat \<times> byte list \<times> status) \<times> Stream" where
  "Read n s =
     (if isReadTimedOut s then Read_return (0, [], Some timeoutError) s
      else Read_loop n s)"

subsection \<open>Write\<close>

text \<open>
  \<open>write1\<close> is the source's \<^verbatim>\<open>write\<close> (a reserved word here) and
  \<open>write_loop\<close> one pass of its \<^verbatim>\<open>for\<close> body. \<^verbatim>\<open>uint32(len(b))\<close>
  keeps the low 32 bits of the length, which is \<open>of_nat\<close> into \<open>u32\<close>;
  \<^verbatim>\<open>^uint32(max-1)\<close> is \<open>NOT (max - 1)\<close>.
\<close>

definition write_loop :: "byte list \<Rightarrow> Stream \<Rightarrow> (nat \<times> status) \<times> Stream" where
  "write_loop b s =
     (case state s of
        streamLocalClose \<Rightarrow> ((0, Done (Some ErrStreamClosed)), s)
      | streamClosed \<Rightarrow> ((0, Done (Some ErrStreamClosed)), s)
      | streamReset \<Rightarrow> ((0, Done (Some ErrConnectionReset)), s)
      | _ \<Rightarrow>
          (let window = sendWindow s
           in if window \<noteq> 0 then
                (let (flags, s1) = sendFlags s;
                     maxw = min window (of_nat (length b) :: u32);
                     (err, ss) = waitForSendErr
                        \<lparr>ftype = typeData, fflags = flags, fid = stream_id s1,
                         flength = maxw, fbody = take (unat maxw) b\<rparr> (session s1);
                     s2 = s1\<lparr>session := ss\<rparr>
                 in case err of
                      Some e \<Rightarrow> ((0, Done (Some e)), s2)
                    | None \<Rightarrow>
                        ((unat maxw, Done None),
                         s2\<lparr>sendWindow := sendWindow s2 + NOT (maxw - 1)\<rparr>))
              else ((0, Blocked), s)))"

definition write_select :: "wake \<Rightarrow> byte list \<Rightarrow> Stream \<Rightarrow> (nat \<times> status) \<times> Stream" where
  "write_select w b s =
     (case w of
        Notified \<Rightarrow> write_loop b (s\<lparr>sendNotifyCh := False\<rparr>)
      | TimedOut \<Rightarrow> ((0, Done (Some ErrTimeout)), s))"

definition write1 :: "byte list \<Rightarrow> Stream \<Rightarrow> (nat \<times> status) \<times> Stream" where
  "write1 b s =
     (if isWriteTimedOut s then ((0, Done (Some timeoutError)), s)
      else write_loop b s)"

text \<open>
  The loop of \<^verbatim>\<open>Write\<close> need not end: \<^verbatim>\<open>write\<close> returns \<open>(0, nil)\<close> when the
  low 32 bits of the length of its buffer are zero. It is a partial function, \<open>None\<close>
  meaning that the call never returns. When \<^verbatim>\<open>write\<close> parks, so does \<^verbatim>\<open>Write\<close>,
  with the bytes sent so far; \<open>Write_select\<close> resumes it.
\<close>

partial_function (option) Write_loop ::
    "nat \<Rightarrow> byte list \<Rightarrow> Stream \<Rightarrow> ((nat \<times> status) \<times> Stream) option" where
  "Write_loop tot b s =
     (if tot < length b then
        (case write1 (drop tot b) s of
           ((n, Done None), s1) \<Rightarrow> Write_loop (tot + n) b s1
         | ((n, Done (Some e)), s1) \<Rightarrow> Some ((tot + n, Done (Some e)), s1)
         | ((n, Blocked), s1) \<Rightarrow> Some ((tot + n, Blocked), s1))
      else Some ((tot, Done None), s))"

declare Write_loop.simps [code]

definition Write :: "byte list \<Rightarrow> Stream \<Rightarrow> ((nat \<times> status) \<times> Stream) option" where
  "Write b s = Write_loop 0 b s"

definition Write_select ::
    "wake \<Rightarrow> nat \<Rightarrow> byte list \<Rightarrow> Stream \<Rightarrow> ((nat \<times> status) \<times> Stream) option" where
  "Write_select w tot b s =
     (case write_select w (drop tot b) s of
        ((n, Done None), s1) \<Rightarrow> Write_loop (tot + n) b s1
      | ((n, Done (Some e)), s1) \<Rightarrow> Some ((tot + n, Done (Some e)), s1)
      | ((n, Blocked), s1) \<Rightarrow> Some ((tot + n, Blocked), s1))"

subsection \<open>Close\<close>

definition Close_SEND_CLOSE :: "bool \<Rightarrow> Stream \<Rightarrow> error option go \<times> Stream" where
  "Close_SEND_CLOSE closeStream1 s =
     (let (err, s1) = sendClose s;
          s2 = notifyWaiting s1;
          s3 = (if closeStream1
                then s2\<lparr>session := closeStream (stream_id s2) (session s2)\<rparr> else s2)
      in (Ret None, s3))"

definition Close :: "Stream \<Rightarrow> error option go \<times> Stream" where
  "Close s =
     (case state s of
        streamSYNSent \<Rightarrow> Close_SEND_CLOSE False (s\<lparr>state := streamLocalClose\<rparr>)
      | streamSYNReceived \<Rightarrow> Close_SEND_CLOSE False (s\<lparr>state := streamLocalClose\<rparr>)
      | streamEstablished \<Rightarrow> Close_SEND_CLOSE False (s\<lparr>state := streamLocalClose\<rparr>)
      | streamLocalClose \<Rightarrow> (Ret None, s)
      | streamRemoteClose \<Rightarrow> Close_SEND_CLOSE True (s\<lparr>state := streamClosed\<rparr>)
      | streamClosed \<Rightarrow> (Ret None, s)
      | streamReset \<Rightarrow> (Ret None, s)
      | streamInit \<Rightarrow> (Panic ''unhandled state'', s))"

definition forceClose :: "Stream \<Rightarrow> Stream" where
  "forceClose s = notifyWaiting (s\<lparr>state := streamClosed\<rparr>)"

subsection \<open>Inbound frames\<close>

definition incrSendWindow :: "u32 \<Rightarrow> u16 \<Rightarrow> Stream \<Rightarrow> error option \<times> Stream" where
  "incrSendWindow hdr_Length flags s =
     (case processFlags flags s of
        (Some e, s1) \<Rightarrow> (Some e, s1)
      | (None, s1) \<Rightarrow>
          (None, s1\<lparr>sendWindow := sendWindow s1 + hdr_Length, sendNotifyCh := True\<rparr>))"

text \<open>
  The \<^verbatim>\<open>io.Reader\<close> of \<^verbatim>\<open>readData\<close> is the bytes the transport still delivers and
  how it ends after them (\<open>None\<close> is end of file). \<^verbatim>\<open>io.Copy\<close> from an
  \<^verbatim>\<open>io.LimitedReader\<close> of \<open>N\<close> bytes into a \<^verbatim>\<open>bytes.Buffer\<close> appends what it reads
  until \<open>N\<close> bytes are through or the reader ends; end of file is not an error of
  \<^verbatim>\<open>io.Copy\<close>. The return of \<^verbatim>\<open>readData\<close> for a frame beyond the window is
  the one return that does not release \<^verbatim>\<open>recvLock\<close>; the locks are not part of the
  record.
\<close>

record reader =
  pending :: "byte list"
  ending :: "error option"

definition io_Copy :: "nat \<Rightarrow> reader \<Rightarrow> byte list \<times> error option" where
  "io_Copy N conn =
     (if N \<le> length (pending conn) then (take N (pending conn), None)
      else (pending conn, ending conn))"

definition readData :: "u32 \<Rightarrow> u16 \<Rightarrow> reader \<Rightarrow> Stream \<Rightarrow> error option \<times> Stream" where
  "readData hdr_Length flags conn s =
     (case processFlags flags s of
        (Some e, s1) \<Rightarrow> (Some e, s1)
      | (None, s1) \<Rightarrow>
          (let len = hdr_Length
           in if len = 0 then (None, s1)
              else if len > recvWindow s1 then
                (Some ErrRecvWindowExceeded,
                 s1\<lparr>session :=
                      Printf (LogRecvWindowExceeded (stream_id s1) (recvWindow s1) len)
                        (session s1)\<rparr>)
              else
                (let buf = (case recvBuf s1 of None \<Rightarrow> [] | Some bs \<Rightarrow> bs);
                     (copied, err) = io_Copy (unat len) conn;
                     s2 = s1\<lparr>recvBuf := Some (buf @ copied)\<rparr>
                 in case err of
                      Some e \<Rightarrow>
                        (Some e, s2\<lparr>session := Printf (LogReadFailed e) (session s2)\<rparr>)
                    | None \<Rightarrow>
                        (None, s2\<lparr>recvWindow := recvWindow s2 - len,
                                  recvNotifyCh := True\<rparr>))))"

subsection \<open>Deadlines\<close>

text \<open>
  \<^verbatim>\<open>time.AfterFunc(d, f)\<close> arms a fresh timer that runs \<open>f\<close> once, \<open>d\<close> after now;
  \<^verbatim>\<open>Stop\<close> disarms a timer. \<open>fireTimers now\<close> is the runtime running every armed timer
  that is due at \<open>now\<close>.
\<close>

definition time_AfterFunc :: "int \<Rightarrow> int \<Rightarrow> timerFunc \<Rightarrow> Stream \<Rightarrow> nat \<times> Stream" where
  "time_AfterFunc now d f s =
     (nextTimer s,
      s\<lparr>timers := timers s @ [(nextTimer s, now + d, f)], nextTimer := nextTimer s + 1\<rparr>)"

definition timer_Stop :: "nat \<Rightarrow> Stream \<Rightarrow> Stream" where
  "timer_Stop h s = s\<lparr>timers := filter (\<lambda>(i, at, f). i \<noteq> h) (timers s)\<rparr>"

definition runTimerFunc :: "timerFunc \<Rightarrow> Stream \<Rightarrow> Stream" where
  "runTimerFunc f s =
     (case f of ReadTimedOut \<Rightarrow> setReadTimedOut True s
              | WriteTimedOut \<Rightarrow> setWriteTimedOut True s)"

definition fireTimers :: "int \<Rightarrow> Stream \<Rightarrow> Stream" where
  "fireTimers now s =
     fold (\<lambda>(i, at, f) s'. runTimerFunc f s')
       (filter (\<lambda>(i, at, f). at \<le> now) (timers s))
       (s\<lparr>timers := filter (\<lambda>(i, at, f). \<not> at \<le> now) (timers s)\<rparr>)"

definition SetReadDeadline :: "int \<Rightarrow> int \<Rightarrow> Stream \<Rightarrow> error option \<times> Stream" where
  "SetReadDeadline now t s0 =
     (let s = setReadTimedOut False s0;
          d = t - now;
          s1 = (if t = 0 \<or> d < 0 then
                  (let s' = (case readTimer s of None \<Rightarrow> s | Some h \<Rightarrow> timer_Stop h s)
                   in s'\<lparr>readTimer := None\<rparr>)
                else
                  (let (h, s') = time_AfterFunc now d ReadTimedOut s
                   in s'\<lparr>readTimer := Some h\<rparr>));
          s2 = (if t \<noteq> 0 \<and> d < 0 then setReadTimedOut True s1 else s1)
      in (None, s2))"

definition SetWriteDeadline :: "int \<Rightarrow> int \<Rightarrow> Stream \<Rightarrow> error option \<times> Stream" where
  "SetWriteDeadline now t s0 =
     (let s = setWriteTimedOut False s0;
          d = t - now;
          s1 = (if t = 0 \<or> d < 0 then
                  (let s' = (case writeTimer s of None \<Rightarrow> s | Some h \<Rightarrow> timer_Stop h s)
                   in s'\<lparr>writeTimer := None\<rparr>)
                else
                  (let (h, s') = time_AfterFunc now d WriteTimedOut s
                   in s'\<lparr>writeTimer := Some h\<rparr>));
          s2 = (if t \<noteq> 0 \<and> d < 0 then setWriteTimedOut True s1 else s1)
      in (None, s2))"

definition SetDeadline :: "int \<Rightarrow> int \<Rightarrow> Stream \<Rightarrow> error option \<times> Stream" where
  "SetDeadline now t s =
     (case SetReadDeadline now t s of
        (Some e, s1) \<Rightarrow> (Some e, s1)
      | (None, s1) \<Rightarrow> SetWriteDeadline now t s1)"

definition Shrink :: "Stream \<Rightarrow> Stream" where
  "Shrink s =
     (case recvBuf s of
        None \<Rightarrow> s
      | Some buf \<Rightarrow> if length buf = 0 then s\<lparr>recvBuf := None\<rparr> else s)"

subsection \<open>Histories of one stream\<close>

text \<open>
  A history is a series of atomic steps on one stream, made by the user (\<^verbatim>\<open>Read\<close>,
  one \<^verbatim>\<open>write\<close> step of a \<^verbatim>\<open>Write\<close>, \<^verbatim>\<open>Close\<close>, the deadline setters,
  \<^verbatim>\<open>Shrink\<close>), by the session (\<^verbatim>\<open>processFlags\<close>, \<^verbatim>\<open>incrSendWindow\<close>,
  \<^verbatim>\<open>readData\<close>, \<^verbatim>\<open>forceClose\<close>), by a \<^verbatim>\<open>select\<close> that wakes a parked call,
  or by the runtime firing the timers that are due. A \<^verbatim>\<open>Write\<close> call is the series
  of its \<^verbatim>\<open>write\<close> steps.
\<close>

datatype call =
    Call_Read nat
  | Call_Read_select wake nat
  | Call_write "byte list"
  | Call_write_select wake "byte list"
  | Call_Close
  | Call_forceClose
  | Call_processFlags u16
  | Call_incrSendWindow u32 u16
  | Call_readData u32 u16 reader
  | Call_SetReadDeadline int int
  | Call_SetWriteDeadline int int
  | Call_SetDeadline int int
  | Call_Shrink
  | Call_fireTimers int

fun step :: "call \<Rightarrow> Stream \<Rightarrow> Stream" where
  "step (Call_Read n) s = snd (Read n s)"
| "step (Call_Read_select w n) s = snd (Read_select w n s)"
| "step (Call_write b) s = snd (write1 b s)"
| "step (Call_write_select w b) s = snd (write_select w b s)"
| "step Call_Close s = snd (Close s)"
| "step Call_forceClose s = forceClose s"
| "step (Call_processFlags flags) s = snd (processFlags flags s)"
| "step (Call_incrSendWindow len flags) s = snd (incrSendWindow len flags s)"
| "step (Call_readData len flags conn) s = snd (readData len flags conn s)"
| "step (Call_SetReadDeadline now t) s = snd (SetReadDeadline now t s)"
| "step (Call_SetWriteDeadline now t) s = snd (SetWriteDeadline now t s)"
| "step (Call_SetDeadline now t) s = snd (SetDeadline now t s)"
| "step Call_Shrink s = Shrink s"
| "step (Call_fireTimers now) s = fireTimers now s"

fun run :: "call list \<Rightarrow> Stream \<Rightarrow> Stream" where
  "run [] s = s"
| "run (c # cs) s = run cs (step c s)"

definition hasFIN :: "frame \<Rightarrow> bool" where
  "hasFIN f = (fflags f AND flagFIN = flagFIN)"

definition FINs :: "Stream \<Rightarrow> nat" where
  "FINs s = length (filter hasFIN (outbox (session s)))"

text \<open>
  The states in which the user has not closed the stream and the peer has not reset it,
  the invariant that ties the count of FIN frames to them, and the relation of a step
  that hands no FIN to the session and does not reopen the stream.
\<close>

definition unclosed :: "streamState \<Rightarrow> bool" where
  "unclosed st =
     (case st of
        streamLocalClose \<Rightarrow> False | streamClosed \<Rightarrow> False | streamReset \<Rightarrow> False
      | _ \<Rightarrow> True)"

definition FIN_inv :: "Stream \<Rightarrow> bool" where
  "FIN_inv s = (FINs s \<le> (if unclosed (state s) then 0 else 1))"

definition keeps :: "Stream \<Rightarrow> Stream \<Rightarrow> bool" where
  "keeps s s' = (FINs s' = FINs s \<and> (unclosed (state s) \<or> \<not> unclosed (state s')))"

subsection \<open>Data frames against reads\<close>

text \<open>
  The receive side of a history: data frames that \<^verbatim>\<open>readData\<close> accepts, and the
  passes of \<^verbatim>\<open>Read\<close> calls. \<open>receive\<close> gives the bytes handed to the user, in
  order, and \<open>None\<close> when \<^verbatim>\<open>readData\<close> turns a frame down. The body of a frame is
  the \<open>length\<close> bytes the transport has after the header (fewer when the transport
  ends before).
\<close>

datatype recv_call =
    Data_frame u32 u16 reader
  | User_Read nat
  | User_Read_select wake nat

fun receive :: "recv_call list \<Rightarrow> Stream \<Rightarrow> (byte list \<times> Stream) option" where
  "receive [] s = Some ([], s)"
| "receive (Data_frame len flags conn # cs) s =
     (case readData len flags conn s of
        (Some e, s1) \<Rightarrow> None
      | (None, s1) \<Rightarrow> receive cs s1)"
| "receive (User_Read n # cs) s =
     (case Read n s of
        ((k, bs, st), s1) \<Rightarrow>
          (case receive cs s1 of None \<Rightarrow> None | Some (ds, s2) \<Rightarrow> Some (bs @ ds, s2)))"
| "receive (User_Read_select w n # cs) s =
     (case Read_select w n s of
        ((k, bs, st), s1) \<Rightarrow>
          (case receive cs s1 of None \<Rightarrow> None | Some (ds, s2) \<Rightarrow> Some (bs @ ds, s2)))"

fun frame_bodies :: "recv_call list \<Rightarrow> byte list" where
  "frame_bodies [] = []"
| "frame_bodies (Data_frame len flags conn # cs) =
     take (unat len) (pending conn) @ frame_bodies cs"
| "frame_bodies (c # cs) = frame_bodies cs"

definition buffered :: "Stream \<Rightarrow> byte list" where
  "buffered s = (case recvBuf s of None \<Rightarrow> [] | Some buf \<Rightarrow> buf)"

subsection \<open>Concrete streams\<close>

definition session0 :: Session where
  "session0 =
     \<lparr>MaxStreamWindowSize = 262144, outbox = [], sendResults = [], closedStreams = [],
      establishedStreams = [], logger = []\<rparr>"

definition conn78 :: reader where
  "conn78 = \<lparr>pending = [7, 8], ending = None\<rparr>"


text \<open>A stream the peer opened and the user closed.\<close>

definition locally_closed :: Stream where
  "locally_closed = run [Call_Close] (newStream session0 1 streamSYNReceived)"




text \<open>
  A stream whose user sets a read and a write deadline for instant 50 at instant 0, and
  moves both to instant 1000 at instant 10.
\<close>

definition deadline_moved :: Stream where
  "deadline_moved =
     run [Call_SetReadDeadline 0 50, Call_SetWriteDeadline 0 50,
          Call_SetReadDeadline 10 1000, Call_SetWriteDeadline 10 1000]
       (newStream session0 1 streamEstablished)"

text \<open>An established stream whose peer has granted 100 bytes.\<close>

definition window100 :: Stream where
  "window100 = (newStream session0 1 streamEstablished)\<lparr>sendWindow := 100\<rparr>"

text \<open>The same stream on a session that will answer the next frame with an error.\<close>

definition window100_refused :: Stream where
  "window100_refused =
     window100\<lparr>session := session0\<lparr>sendResults := [Some (ErrSession 1)]\<rparr>\<rparr>"

text \<open>
  The flag that the next outbound frame has to carry for the state: SYN on the first
  frame of a stream in \<open>Init\<close>, ACK on the first frame of a stream in
  \<open>SYNReceived\<close>.
\<close>

definition piggyback :: "Stream \<Rightarrow> u16" where
  "piggyback s =
     (if state s = streamInit then flagSYN
      else if state s = streamSYNReceived then flagACK else 0)"

text \<open>A transport with nothing left to deliver.\<close>

definition conn_empty :: reader where
  "conn_empty = \<lparr>pending = [], ending = None\<rparr>"

text \<open>
  An established stream that received 4096 bytes, all read by the user, and a stream
  opened by the peer that received two bytes, both read by the user.
\<close>

definition drained4096 :: Stream where
  "drained4096 =
     (newStream session0 1 streamEstablished)\<lparr>recvWindow := 258048, recvBuf := Some []\<rparr>"

definition drained_SYNReceived :: Stream where
  "drained_SYNReceived =
     (run [Call_readData 2 0 conn78] (newStream session0 1 streamSYNReceived))
       \<lparr>recvBuf := Some []\<rparr>"

section \<open>Properties\<close>

subsection \<open>Close\<close>

text \<open>
  C9: \<^verbatim>\<open>Close()\<close> on a stream in state \<open>Init\<close> reaches
  \<^verbatim>\<open>panic("unhandled state")\<close>. The switch of \<^verbatim>\<open>Close\<close> handles every state but
  \<open>Init\<close>: the call panics exactly in that state, and so for a stream that was created
  locally and has not sent a frame yet.
\<close>

theorem Close_in_Init_panics:
  "(fst (Close s) = Panic ''unhandled state'') = (state s = streamInit) \<and>
   (fst (Close s) = Ret None) = (state s \<noteq> streamInit) \<and>
   fst (Close (newStream sess i streamInit)) = Panic ''unhandled state''"
  by (cases "state s")
     (auto simp: Close_def Close_SEND_CLOSE_def Let_def newStream_def split: prod.splits)

subsection \<open>Write\<close>

text \<open>
  C10: In every state of the stream, \<^verbatim>\<open>LocalClose\<close>, \<^verbatim>\<open>Closed\<close> and \<^verbatim>\<open>Reset\<close>
  among them, and whatever the deadline flag, \<^verbatim>\<open>Write\<close> of an empty buffer returns
  \<open>(0, nil)\<close> and leaves the stream and the session as they are: no frame, and none of
  the errors of the state.
\<close>

theorem Write_empty_buffer: "Write [] s = Some ((0, Done None), s)"
  by (simp add: Write_def Write_loop.simps)

subsection \<open>At most one FIN\<close>

lemma keeps_refl: "keeps s s"
  by (simp add: keeps_def)

lemma keeps_trans: "keeps s s1 \<Longrightarrow> keeps s1 s2 \<Longrightarrow> keeps s s2"
  by (auto simp: keeps_def)

lemma keeps_FIN_inv: "FIN_inv s \<Longrightarrow> keeps s s' \<Longrightarrow> FIN_inv s'"
  by (auto simp: keeps_def FIN_inv_def split: if_splits)

lemma flag_bits:
  "flagFIN \<noteq> 0" "flagSYN AND flagFIN \<noteq> flagFIN" "flagACK AND flagFIN \<noteq> flagFIN"
  by (simp_all add: flagFIN_def flagSYN_def flagACK_def)

lemma sendFlags_keeps:
  "sendFlags s = (fl, s1) \<Longrightarrow>
     fl AND flagFIN \<noteq> flagFIN \<and> session s1 = session s \<and>
     unclosed (state s1) = unclosed (state s) \<and>
     (state s1 = state s \<or> state s1 = streamSYNSent \<or> state s1 = streamEstablished)"
  by (cases "state s") (auto simp: sendFlags_def unclosed_def flag_bits)

lemma outbox_waitForSendErr:
  "waitForSendErr f ss = (err, ss') \<Longrightarrow> outbox ss' = outbox ss @ [f]"
  by (auto simp: waitForSendErr_def split: list.splits)

lemma sendWindowUpdate_keeps: "keeps s (snd (sendWindowUpdate s))"
proof -
  obtain fl s1 where sf: "sendFlags s = (fl, s1)" by (cases "sendFlags s")
  note k = sendFlags_keeps [OF sf]
  show ?thesis
    using k
    by (auto simp: sendWindowUpdate_def Let_def sf keeps_def FINs_def hasFIN_def
        dest!: outbox_waitForSendErr split: prod.splits)
qed

lemma Read_data_keeps: "keeps s (snd (Read_data n s))"
proof (cases "recvBuf s")
  case None
  then show ?thesis by (simp add: Read_data_def keeps_refl)
next
  case (Some buf)
  let ?s0 = "s\<lparr>recvBuf := Some (drop (min n (length buf)) buf)\<rparr>"
  have a: "keeps s ?s0" by (simp add: keeps_def FINs_def)
  have b: "keeps ?s0 (snd (sendWindowUpdate ?s0))" by (rule sendWindowUpdate_keeps)
  have c: "keeps (snd (sendWindowUpdate ?s0)) ((snd (sendWindowUpdate ?s0))\<lparr>recvNotifyCh := True\<rparr>)"
    by (simp add: keeps_def FINs_def)
  from keeps_trans [OF a keeps_trans [OF b c]] Some show ?thesis
    by (auto simp: Read_data_def Let_def Read_return_def keeps_refl split: prod.splits)
qed

lemma Read_return_keeps: "keeps s (snd (Read_return r s))"
  by (cases r) (simp add: Read_return_def keeps_def FINs_def)

lemma Read_loop_keeps: "keeps s (snd (Read_loop n s))"
  by (cases "state s") (simp_all add: Read_loop_def Read_data_keeps Read_return_keeps)

lemma Read_keeps: "keeps s (snd (Read n s))"
  by (simp add: Read_def Read_loop_keeps Read_return_keeps)

lemma Read_select_keeps: "keeps s (snd (Read_select w n s))"
proof (cases w)
  case Notified
  have a: "keeps s (s\<lparr>recvNotifyCh := False\<rparr>)" by (simp add: keeps_def FINs_def)
  from keeps_trans [OF a Read_loop_keeps] Notified show ?thesis
    by (simp add: Read_select_def)
next
  case TimedOut
  then show ?thesis by (simp add: Read_select_def Read_return_keeps)
qed

lemma write_loop_keeps: "keeps s (snd (write_loop b s))"
proof -
  obtain fl s1 where sf: "sendFlags s = (fl, s1)" by (cases "sendFlags s")
  note k = sendFlags_keeps [OF sf]
  show ?thesis
    using k
    by (cases "state s")
       (auto simp: write_loop_def Let_def sf keeps_def FINs_def hasFIN_def
          dest!: outbox_waitForSendErr split: prod.splits option.splits)
qed

lemma write1_keeps: "keeps s (snd (write1 b s))"
  by (simp add: write1_def write_loop_keeps keeps_refl)

lemma write_select_keeps: "keeps s (snd (write_select w b s))"
proof (cases w)
  case Notified
  have a: "keeps s (s\<lparr>sendNotifyCh := False\<rparr>)" by (simp add: keeps_def FINs_def)
  from keeps_trans [OF a write_loop_keeps] Notified show ?thesis
    by (simp add: write_select_def)
next
  case TimedOut
  then show ?thesis by (simp add: write_select_def keeps_refl)
qed

lemma processFlags_keeps: "keeps s (snd (processFlags flags s))"
  by (cases "state s")
     (auto simp: processFlags_def processFlags_ACK_def processFlags_FIN_def
        processFlags_RST_def notifyWaiting_def establishStream_def closeStream_def
        Printf_def Let_def keeps_def FINs_def unclosed_def split: prod.splits option.splits)


lemma incrSendWindow_keeps: "keeps s (snd (incrSendWindow len flags s))"
proof -
  obtain err s1 where pf: "processFlags flags s = (err, s1)" by (cases "processFlags flags s")
  have a: "keeps s s1" using processFlags_keeps [of s flags] by (simp add: pf)
  have b: "keeps s1 (s1\<lparr>sendWindow := sendWindow s1 + len, sendNotifyCh := True\<rparr>)"
    by (simp add: keeps_def FINs_def)
  show ?thesis
    using a keeps_trans [OF a b] by (cases err) (simp_all add: incrSendWindow_def pf)
qed

lemma readData_keeps: "keeps s (snd (readData len flags conn s))"
proof -
  obtain err s1 where pf: "processFlags flags s = (err, s1)" by (cases "processFlags flags s")
  have a: "keeps s s1" using processFlags_keeps [of s flags] by (simp add: pf)
  have b: "keeps s1 (snd (readData len flags conn s))"
    by (cases err)
       (auto simp: readData_def pf Let_def keeps_def FINs_def Printf_def
          split: prod.splits option.splits)
  from keeps_trans [OF a b] show ?thesis .
qed

lemma timers_keeps:
  "keeps s (setReadTimedOut x s)" "keeps s (setWriteTimedOut x s)"
  "keeps s (timer_Stop h s)" "keeps s (snd (time_AfterFunc now d f s))"
  by (simp_all add: keeps_def FINs_def setReadTimedOut_def setWriteTimedOut_def
      timer_Stop_def time_AfterFunc_def)

lemma SetReadDeadline_keeps: "keeps s (snd (SetReadDeadline now t s))"
  by (auto simp: SetReadDeadline_def Let_def keeps_def FINs_def setReadTimedOut_def
      timer_Stop_def time_AfterFunc_def split: option.splits)

lemma SetWriteDeadline_keeps: "keeps s (snd (SetWriteDeadline now t s))"
  by (auto simp: SetWriteDeadline_def Let_def keeps_def FINs_def setWriteTimedOut_def
      timer_Stop_def time_AfterFunc_def split: option.splits)

lemma SetDeadline_keeps: "keeps s (snd (SetDeadline now t s))"
proof -
  obtain err s1 where r: "SetReadDeadline now t s = (err, s1)"
    by (cases "SetReadDeadline now t s")
  have a: "keeps s s1" using SetReadDeadline_keeps [of s now t] by (simp add: r)
  show ?thesis
    using a keeps_trans [OF a SetWriteDeadline_keeps [of s1 now t]]
    by (cases err) (simp_all add: SetDeadline_def r)
qed

lemma fold_timers_keeps:
  "keeps s (fold (\<lambda>(i, at, f) s'. runTimerFunc f s') ts s)"
proof (induction ts arbitrary: s)
  case Nil
  show ?case by (simp add: keeps_refl)
next
  case (Cons x ts)
  obtain i at f where x: "x = (i, at, f)" by (cases x)
  have a: "keeps s (runTimerFunc f s)"
    by (cases f) (simp_all add: runTimerFunc_def timers_keeps)
  from keeps_trans [OF a Cons.IH [of "runTimerFunc f s"]] show ?case
    by (simp add: x)
qed

lemma fireTimers_keeps: "keeps s (fireTimers now s)"
proof -
  let ?s0 = "s\<lparr>timers := filter (\<lambda>(i, at, f). \<not> at \<le> now) (timers s)\<rparr>"
  have a: "keeps s ?s0" by (simp add: keeps_def FINs_def)
  from keeps_trans [OF a fold_timers_keeps [of ?s0]] show ?thesis
    by (simp add: fireTimers_def)
qed

lemma Shrink_keeps: "keeps s (Shrink s)"
  by (simp add: Shrink_def keeps_def FINs_def split: option.splits)

lemma forceClose_keeps: "keeps s (forceClose s)"
  by (simp add: forceClose_def notifyWaiting_def keeps_def FINs_def unclosed_def)

lemma sendClose_FINs:
  "\<not> unclosed (state s) \<Longrightarrow> FINs (snd (sendClose s)) = Suc (FINs s) \<and> state (snd (sendClose s)) = state s"
  by (cases "state s")
     (auto simp: sendClose_def sendFlags_def Let_def FINs_def hasFIN_def unclosed_def
        flagFIN_def dest!: outbox_waitForSendErr split: prod.splits)

lemma Close_SEND_CLOSE_FINs:
  "\<not> unclosed (state s) \<Longrightarrow>
     FINs (snd (Close_SEND_CLOSE c s)) = Suc (FINs s) \<and> state (snd (Close_SEND_CLOSE c s)) = state s"
  using sendClose_FINs [of s]
  by (auto simp: Close_SEND_CLOSE_def Let_def notifyWaiting_def closeStream_def FINs_def
      split: prod.splits)

lemma Close_FIN_inv: "FIN_inv s \<Longrightarrow> FIN_inv (snd (Close s))"
proof (cases "state s")
  case streamSYNSent
  assume "FIN_inv s"
  with streamSYNSent Close_SEND_CLOSE_FINs [of "s\<lparr>state := streamLocalClose\<rparr>" False]
  show ?thesis by (simp add: Close_def FIN_inv_def unclosed_def FINs_def)
next
  case streamSYNReceived
  assume "FIN_inv s"
  with streamSYNReceived Close_SEND_CLOSE_FINs [of "s\<lparr>state := streamLocalClose\<rparr>" False]
  show ?thesis by (simp add: Close_def FIN_inv_def unclosed_def FINs_def)
next
  case streamEstablished
  assume "FIN_inv s"
  with streamEstablished Close_SEND_CLOSE_FINs [of "s\<lparr>state := streamLocalClose\<rparr>" False]
  show ?thesis by (simp add: Close_def FIN_inv_def unclosed_def FINs_def)
next
  case streamRemoteClose
  assume "FIN_inv s"
  with streamRemoteClose Close_SEND_CLOSE_FINs [of "s\<lparr>state := streamClosed\<rparr>" True]
  show ?thesis by (simp add: Close_def FIN_inv_def unclosed_def FINs_def)
qed (simp_all add: Close_def)

lemma step_FIN_inv: "FIN_inv s \<Longrightarrow> FIN_inv (step c s)"
  by (cases c)
     (simp_all add: Close_FIN_inv keeps_FIN_inv [OF _ Read_keeps]
        keeps_FIN_inv [OF _ Read_select_keeps] keeps_FIN_inv [OF _ write1_keeps]
        keeps_FIN_inv [OF _ write_select_keeps] keeps_FIN_inv [OF _ forceClose_keeps]
        keeps_FIN_inv [OF _ processFlags_keeps] keeps_FIN_inv [OF _ incrSendWindow_keeps]
        keeps_FIN_inv [OF _ readData_keeps] keeps_FIN_inv [OF _ SetReadDeadline_keeps]
        keeps_FIN_inv [OF _ SetWriteDeadline_keeps] keeps_FIN_inv [OF _ SetDeadline_keeps]
        keeps_FIN_inv [OF _ Shrink_keeps] keeps_FIN_inv [OF _ fireTimers_keeps])

lemma run_FIN_inv: "FIN_inv s \<Longrightarrow> FIN_inv (run cs s)"
  by (induction cs arbitrary: s) (simp_all add: step_FIN_inv)

lemma Write_loop_keeps:
  assumes "Write_loop tot b s = Some y"
  shows "keeps s (snd y)"
proof (rule Write_loop.raw_induct [where P = "\<lambda>tot b s y. keeps s (snd y)", OF _ assms])
  fix W :: "nat \<Rightarrow> byte list \<Rightarrow> Stream \<Rightarrow> ((nat \<times> status) \<times> Stream) option"
  fix tot b s y
  assume IH: "\<And>tot b s y. W tot b s = Some y \<Longrightarrow> keeps s (snd y)"
  assume eq: "(if tot < length b
      then case write1 (drop tot b) s of
           ((n, Done None), s1) \<Rightarrow> W (tot + n) b s1
           | ((n, Done (Some e)), s1) \<Rightarrow> Some ((tot + n, Done (Some e)), s1)
           | ((n, Blocked), s1) \<Rightarrow> Some ((tot + n, Blocked), s1)
      else Some ((tot, Done None), s)) = Some y"
  obtain n st s1 where w: "write1 (drop tot b) s = ((n, st), s1)"
    by (cases "write1 (drop tot b) s") auto
  have a: "keeps s s1" using write1_keeps [of s "drop tot b"] by (simp add: w)
  show "keeps s (snd y)"
  proof (cases "tot < length b")
    case False
    with eq show ?thesis by (auto simp: keeps_refl)
  next
    case True
    show ?thesis
    proof (cases st)
      case Blocked
      with True eq w a show ?thesis by auto
    next
      case (Done err)
      show ?thesis
      proof (cases err)
        case None
        with True Done eq w have "W (tot + n) b s1 = Some y" by simp
        from keeps_trans [OF a IH [OF this]] show ?thesis .
      next
        case (Some e)
        with True Done eq w a show ?thesis by auto
      qed
    qed
  qed
qed

text \<open>
  C8: \<^verbatim>\<open>Close()\<close> on a stream in state \<open>LocalClose\<close> does nothing: it returns
  \<^verbatim>\<open>nil\<close>, the state stays \<open>LocalClose\<close> and no frame goes to the session (stream
  and session are unchanged). With that, no history of a stream created on a session
  with an empty outbox hands more than one FIN frame to the session.
\<close>

theorem Close_in_LocalClose_is_noop:
  "(state s = streamLocalClose \<longrightarrow> Close s = (Ret None, s)) \<and>
   (outbox sess = [] \<longrightarrow> FINs (run cs (newStream sess i st)) \<le> 1)"
proof (intro conjI impI)
  assume "state s = streamLocalClose"
  then show "Close s = (Ret None, s)" by (simp add: Close_def)
next
  assume "outbox sess = []"
  then have "FIN_inv (newStream sess i st)"
    by (simp add: FIN_inv_def FINs_def newStream_def)
  then have "FIN_inv (run cs (newStream sess i st))" by (rule run_FIN_inv)
  then show "FINs (run cs (newStream sess i st)) \<le> 1"
    by (simp add: FIN_inv_def split: if_splits)
qed

theorem Close_in_LocalClose_is_noop_witness:
  "state locally_closed = streamLocalClose \<and>
   Close locally_closed = (Ret None, locally_closed) \<and>
   outbox session0 = [] \<and>
   FINs (run [Call_Close, Call_Close] (newStream session0 1 streamEstablished)) \<le> 1"
proof -
  have h1: "state locally_closed = streamLocalClose" by code_simp
  have h2: "outbox session0 = []" by (simp add: session0_def)
  from Close_in_LocalClose_is_noop
         [of locally_closed session0 "[Call_Close, Call_Close]" 1 streamEstablished] h1 h2
  show ?thesis by simp
qed

subsection \<open>Inbound ACK\<close>





subsection \<open>Read and Write on a closed or reset stream\<close>







subsection \<open>Deadlines\<close>

lemma SetReadDeadline_future:
  "t \<noteq> 0 \<Longrightarrow> now \<le> t \<Longrightarrow>
   timers (snd (SetReadDeadline now t s)) = timers s @ [(nextTimer s, t, ReadTimedOut)] \<and>
   \<not> isReadTimedOut (snd (SetReadDeadline now t s))"
  by (simp add: SetReadDeadline_def Let_def time_AfterFunc_def setReadTimedOut_def
      isReadTimedOut_def)

lemma SetWriteDeadline_future:
  "t \<noteq> 0 \<Longrightarrow> now \<le> t \<Longrightarrow>
   timers (snd (SetWriteDeadline now t s)) = timers s @ [(nextTimer s, t, WriteTimedOut)] \<and>
   \<not> isWriteTimedOut (snd (SetWriteDeadline now t s))"
  by (simp add: SetWriteDeadline_def Let_def time_AfterFunc_def setWriteTimedOut_def
      isWriteTimedOut_def)

text \<open>
  C3: a deadline setter called with a future instant clears the flag and arms one new
  timer, but it does not stop the timer of the call before; only the branch for the zero
  and the past instant calls \<^verbatim>\<open>Stop\<close>. On the stream whose deadlines were set for
  instant 50 and then moved to instant 1000, four timers are armed; the flags are clear;
  and when the runtime fires the timers due at instant 50, both flags are set, 950
  before the deadline in force.
\<close>

theorem deadline_moved_fires_early:
  "timers deadline_moved =
     [(0, 50, ReadTimedOut), (1, 50, WriteTimedOut),
      (2, 1000, ReadTimedOut), (3, 1000, WriteTimedOut)] \<and>
   readTimer deadline_moved = Some 2 \<and> writeTimer deadline_moved = Some 3 \<and>
   \<not> isReadTimedOut deadline_moved \<and> \<not> isWriteTimedOut deadline_moved \<and>
   isReadTimedOut (fireTimers 50 deadline_moved) \<and>
   isWriteTimedOut (fireTimers 50 deadline_moved)"
  by code_simp

subsection \<open>One write step\<close>

lemma twos_complement_sub: "(w::u32) + NOT (m - 1) = w - m"
  by (simp add: not_eq_complement)

lemma unat_min: "unat (min (a::u32) b) = min (unat a) (unat b)"
  by (simp add: min_def word_le_nat_alt)

lemma unat_len32: "n < 2 ^ 32 \<Longrightarrow> unat (of_nat n :: u32) = n"
  by (simp add: unat_of_nat)

lemma write_loop_send:
  assumes st: "state s \<noteq> streamLocalClose" "state s \<noteq> streamClosed" "state s \<noteq> streamReset"
    and w: "sendWindow s \<noteq> 0"
  shows "write_loop b s =
    (let (flags, s1) = sendFlags s;
         maxw = min (sendWindow s) (of_nat (length b) :: u32);
         (err, ss) = waitForSendErr
            \<lparr>ftype = typeData, fflags = flags, fid = stream_id s1,
             flength = maxw, fbody = take (unat maxw) b\<rparr> (session s1);
         s2 = s1\<lparr>session := ss\<rparr>
     in case err of
          Some e \<Rightarrow> ((0, Done (Some e)), s2)
        | None \<Rightarrow> ((unat maxw, Done None), s2\<lparr>sendWindow := sendWindow s2 + NOT (maxw - 1)\<rparr>))"
  using st w by (cases "state s") (simp_all add: write_loop_def)

lemma sendFlags_fields:
  "stream_id (snd (sendFlags s)) = stream_id s"
  "session (snd (sendFlags s)) = session s"
  "sendWindow (snd (sendFlags s)) = sendWindow s"
  "recvWindow (snd (sendFlags s)) = recvWindow s"
  "recvBuf (snd (sendFlags s)) = recvBuf s"
  by (cases "state s"; simp add: sendFlags_def)+

lemma write1_truncates:
  assumes "length b = 4294967301"
  shows "fst (write1 b window100) = (5, Done None)"
proof -
  have "(of_nat (length b) :: u32) = 5" by (simp add: assms)
  then show ?thesis
    by (simp add: write1_def write_loop_def window100_def newStream_def session0_def
        isWriteTimedOut_def sendFlags_def waitForSendErr_def Let_def)
qed

text \<open>
  The run of the spec with a send window of 100 and a \<^verbatim>\<open>Write\<close> of 250 bytes: one
  frame of 100 bytes, then the call parks; after a window update of 150 the call is
  woken, sends a frame of 150 bytes and returns 250.
\<close>

lemma Write_250_over_window_100:
  "map_option fst (Write (replicate 250 1) window100) = Some (100, Blocked) \<and>
   map_option fst
     (Write_select Notified 100 (replicate 250 1)
        (snd (incrSendWindow 150 0 (snd (the (Write (replicate 250 1) window100)))))) =
     Some (250, Done None) \<and>
   map flength
     (outbox (session (snd (the
        (Write_select Notified 100 (replicate 250 1)
           (snd (incrSendWindow 150 0 (snd (the (Write (replicate 250 1) window100))))))))))
     = [100, 150]"
  by code_simp

text \<open>
  C6, as the claim has it: every write step with a nonzero send window \<open>w\<close> sends
  \<open>min(w, len(b))\<close> bytes, takes them off the window and returns their count. Two
  steps with a window of 100 that do not. When the session answers the frame with an
  error, the step returns 0 with that error and the window stays at 100. With a buffer of
  \<open>2^32 + 5\<close> bytes the step sends a frame of 5 bytes and returns 5, where the claim
  has 100: \<^verbatim>\<open>uint32(len(b))\<close> keeps the low 32 bits of the length.
\<close>

theorem write_step_not_as_claimed:
  "sendWindow window100_refused = 100 \<and>
   fst (write1 [1, 2, 3] window100_refused) = (0, Done (Some (ErrSession 1))) \<and>
   sendWindow (snd (write1 [1, 2, 3] window100_refused)) = 100 \<and>
   fst (write1 (replicate 4294967301 0) window100) = (5, Done None) \<and>
   min (unat (sendWindow window100)) (length (replicate 4294967301 (0::byte))) = 100"
proof -
  have l: "length (replicate 4294967301 (0::byte)) = 4294967301"
    by (simp only: length_replicate)
  have w: "unat (sendWindow window100) = 100"
    by (simp add: window100_def)
  have r: "sendWindow window100_refused = 100"
    "fst (write1 [1, 2, 3] window100_refused) = (0, Done (Some (ErrSession 1)))"
    "sendWindow (snd (write1 [1, 2, 3] window100_refused)) = 100"
    by code_simp+
  show ?thesis
    using write1_truncates [OF l] r by (simp only: l w) simp
qed

text \<open>
  C6, amended: a write step that passes the state check (the state is none of
  \<open>LocalClose\<close>, \<open>Closed\<close>, \<open>Reset\<close>) and the deadline check, with a send window
  \<open>w \<noteq> 0\<close> and a buffer \<open>b\<close> of fewer than \<open>2^32\<close> bytes, hands exactly one data
  frame to the session, of length \<open>n = min(w, len(b))\<close> and with the first \<open>n\<close> bytes
  of \<open>b\<close>. When the session reports no error, the step returns \<open>n\<close>, and the send
  window is \<open>w + NOT (n - 1)\<close> in 32-bit arithmetic, which is \<open>w - n\<close> without
  wrap-around: the new window plus \<open>n\<close> is the old window as numbers. When the
  session reports an error, the step returns 0 with that error and the window is as
  before.
\<close>

theorem write_step_window:
  "state s \<noteq> streamLocalClose \<and> state s \<noteq> streamClosed \<and> state s \<noteq> streamReset \<and>
   \<not> isWriteTimedOut s \<and> sendWindow s \<noteq> 0 \<and> length b < 2 ^ 32 \<longrightarrow>
   (let n = min (unat (sendWindow s)) (length b); r = write1 b s in
      outbox (session (snd r)) =
        outbox (session s) @
          [\<lparr>ftype = typeData, fflags = fst (sendFlags s), fid = stream_id s,
            flength = of_nat n, fbody = take n b\<rparr>] \<and>
      (sendResults (session s) = [] \<or> hd (sendResults (session s)) = None \<longrightarrow>
         fst r = (n, Done None) \<and>
         sendWindow (snd r) = sendWindow s + NOT (of_nat n - 1) \<and>
         unat (sendWindow (snd r)) + n = unat (sendWindow s)) \<and>
      (\<forall>e. sendResults (session s) \<noteq> [] \<and> hd (sendResults (session s)) = Some e \<longrightarrow>
         fst r = (0, Done (Some e)) \<and> sendWindow (snd r) = sendWindow s))"
proof (intro impI)
  assume a: "state s \<noteq> streamLocalClose \<and> state s \<noteq> streamClosed \<and> state s \<noteq> streamReset \<and>
   \<not> isWriteTimedOut s \<and> sendWindow s \<noteq> 0 \<and> length b < 2 ^ 32"
  define m where "m = min (sendWindow s) (of_nat (length b) :: u32)"
  define n where "n = min (unat (sendWindow s)) (length b)"
  have un: "unat m = n"
    using a by (simp add: m_def n_def unat_min unat_len32)
  have mn: "m = of_nat n"
    using un [symmetric] by simp
  have le: "m \<le> sendWindow s" by (simp add: m_def)
  have sub: "unat (sendWindow s - m) + n = unat (sendWindow s)"
    using le un by (simp add: unat_sub word_le_nat_alt)
  obtain fl s1 where sf: "sendFlags s = (fl, s1)" by (cases "sendFlags s")
  have f: "stream_id s1 = stream_id s" "session s1 = session s" "sendWindow s1 = sendWindow s"
    using sendFlags_fields [of s] by (simp_all add: sf)
  have w: "write1 b s = write_loop b s" using a by (simp add: write1_def)
  show "let n = min (unat (sendWindow s)) (length b); r = write1 b s in
      outbox (session (snd r)) =
        outbox (session s) @
          [\<lparr>ftype = typeData, fflags = fst (sendFlags s), fid = stream_id s,
            flength = of_nat n, fbody = take n b\<rparr>] \<and>
      (sendResults (session s) = [] \<or> hd (sendResults (session s)) = None \<longrightarrow>
         fst r = (n, Done None) \<and>
         sendWindow (snd r) = sendWindow s + NOT (of_nat n - 1) \<and>
         unat (sendWindow (snd r)) + n = unat (sendWindow s)) \<and>
      (\<forall>e. sendResults (session s) \<noteq> [] \<and> hd (sendResults (session s)) = Some e \<longrightarrow>
         fst r = (0, Done (Some e)) \<and> sendWindow (snd r) = sendWindow s)"
    unfolding Let_def n_def [symmetric] w
    using a sub
    by (cases "sendResults (session s)")
       (auto simp: write_loop_send Let_def sf f m_def [symmetric] un mn [symmetric] waitForSendErr_def
          twos_complement_sub split: option.splits)
qed


theorem write_step_window_witness:
  "state window100 \<noteq> streamLocalClose \<and> state window100 \<noteq> streamClosed \<and>
   state window100 \<noteq> streamReset \<and> \<not> isWriteTimedOut window100 \<and>
   sendWindow window100 \<noteq> 0 \<and> length (replicate 250 (1::byte)) < 2 ^ 32 \<and>
   outbox (session (snd (write1 (replicate 250 1) window100))) =
     [\<lparr>ftype = typeData, fflags = 0, fid = 1, flength = 100, fbody = replicate 100 1\<rparr>] \<and>
   sendResults (session window100) = [] \<and>
   fst (write1 (replicate 250 1) window100) = (100, Done None) \<and>
   sendWindow (snd (write1 (replicate 250 1) window100)) = 0"
proof -
  have h: "state window100 \<noteq> streamLocalClose \<and> state window100 \<noteq> streamClosed \<and>
   state window100 \<noteq> streamReset \<and> \<not> isWriteTimedOut window100 \<and>
   sendWindow window100 \<noteq> 0 \<and> length (replicate 250 (1::byte)) < 2 ^ 32"
    by (simp add: window100_def newStream_def isWriteTimedOut_def)
  have i: "sendResults (session window100) = []" "outbox (session window100) = []"
    "unat (sendWindow window100) = 100" "sendWindow window100 = 100"
    "stream_id window100 = 1" "fst (sendFlags window100) = 0"
    by (simp_all add: window100_def newStream_def session0_def sendFlags_def)
  from write_step_window [of window100 "replicate 250 1"] h i
  show ?thesis by (simp add: Let_def)
qed

subsection \<open>Window updates\<close>

lemma sendFlags_piggyback: "fst (sendFlags s) = piggyback s"
  by (cases "state s") (simp_all add: sendFlags_def piggyback_def)

lemma piggyback_0: "(piggyback s = 0) = (state s \<noteq> streamInit \<and> state s \<noteq> streamSYNReceived)"
  by (simp add: piggyback_def flagSYN_def flagACK_def)

text \<open>
  C5: \<^verbatim>\<open>sendWindowUpdate\<close> computes
  \<open>delta = MaxStreamWindowSize - bufferedBytes - recvWindow\<close> in 32-bit arithmetic.
  It hands a window update frame carrying \<open>delta\<close> (and the SYN or ACK flag that is
  due) to the session if and only if \<open>delta \<ge> MaxStreamWindowSize / 2\<close> or such a
  flag is due, which is in the states \<open>Init\<close> and \<open>SYNReceived\<close>. Exactly then
  \<open>recvWindow\<close> grows by \<open>delta\<close>; otherwise no frame is sent, \<open>recvWindow\<close> is
  unchanged and the result is \<^verbatim>\<open>nil\<close>.
\<close>

theorem sendWindowUpdate_policy:
  "(let maxw = MaxStreamWindowSize (session s);
        delta = maxw - of_nat (length (buffered s)) - recvWindow s;
        r = sendWindowUpdate s
    in if maxw div 2 \<le> delta \<or> state s = streamInit \<or> state s = streamSYNReceived
       then outbox (session (snd r)) =
              outbox (session s) @
                [\<lparr>ftype = typeWindowUpdate, fflags = piggyback s, fid = stream_id s,
                  flength = delta, fbody = []\<rparr>] \<and>
            recvWindow (snd r) = recvWindow s + delta
       else outbox (session (snd r)) = outbox (session s) \<and>
            recvWindow (snd r) = recvWindow s \<and> fst r = None)"
proof -
  obtain fl s1 where sf: "sendFlags s = (fl, s1)" by (cases "sendFlags s")
  have f: "stream_id s1 = stream_id s" "session s1 = session s" "recvWindow s1 = recvWindow s"
    "fl = piggyback s"
    using sendFlags_fields [of s] sendFlags_piggyback [of s] by (simp_all add: sf)
  have bl: "(case recvBuf s of None \<Rightarrow> 0 | Some buf \<Rightarrow> (of_nat (length buf) :: u32)) =
      of_nat (length (buffered s))"
    by (simp add: buffered_def split: option.splits)
  show ?thesis
    using piggyback_0 [of s]
    by (auto simp: sendWindowUpdate_def Let_def sf f bl waitForSendErr_def not_le
        split: prod.splits list.splits)
qed

theorem sendWindowUpdate_policy_witness:
  "outbox (session (snd (sendWindowUpdate drained4096))) = [] \<and>
   recvWindow (snd (sendWindowUpdate drained4096)) = 258048 \<and>
   fst (sendWindowUpdate drained4096) = None \<and>
   outbox (session (snd (sendWindowUpdate drained_SYNReceived))) =
     [\<lparr>ftype = typeWindowUpdate, fflags = flagACK, fid = 1, flength = 2, fbody = []\<rparr>] \<and>
   recvWindow (snd (sendWindowUpdate drained_SYNReceived)) = 262144"
proof -
  have a: "MaxStreamWindowSize (session drained4096) = 262144" "buffered drained4096 = []"
    "recvWindow drained4096 = 258048" "state drained4096 = streamEstablished"
    "outbox (session drained4096) = []"
    by code_simp+
  have b: "MaxStreamWindowSize (session drained_SYNReceived) = 262144"
    "buffered drained_SYNReceived = []" "recvWindow drained_SYNReceived = 262142"
    "state drained_SYNReceived = streamSYNReceived" "outbox (session drained_SYNReceived) = []"
    "stream_id drained_SYNReceived = 1"
    by code_simp+
  from sendWindowUpdate_policy [of drained4096] sendWindowUpdate_policy [of drained_SYNReceived] a b
  show ?thesis by (simp add: Let_def piggyback_def)
qed


subsection \<open>A data frame beyond the receive window\<close>

text \<open>
  C7, as the claim has it: a data frame longer than \<open>recvWindow\<close> leaves the stream
  state unchanged. It need not: the flags of the frame are processed before the length
  is looked at. A frame of 262145 bytes with FIN, on a fresh established stream with a
  window of 262144, is turned down with \<^verbatim>\<open>ErrRecvWindowExceeded\<close>, and the stream is
  in \<open>RemoteClose\<close> afterwards.
\<close>

theorem readData_exceeded_changes_state:
  "fst (readData 262145 flagFIN conn78 (newStream session0 1 streamEstablished)) = Some ErrRecvWindowExceeded \<and>
   recvWindow (newStream session0 1 streamEstablished) < 262145 \<and>
   state (newStream session0 1 streamEstablished) = streamEstablished \<and>
   state (snd (readData 262145 flagFIN conn78 (newStream session0 1 streamEstablished))) = streamRemoteClose"
  by code_simp

lemma processFlags_fields:
  "recvBuf (snd (processFlags flags s)) = recvBuf s"
  "recvWindow (snd (processFlags flags s)) = recvWindow s"
  by (cases "state s";
      simp add: processFlags_def processFlags_ACK_def processFlags_FIN_def
        processFlags_RST_def notifyWaiting_def Let_def split: prod.splits option.splits)+

lemma processFlags_no_flags:
  "flags AND flagACK \<noteq> flagACK \<Longrightarrow> flags AND flagFIN \<noteq> flagFIN \<Longrightarrow>
   flags AND flagRST \<noteq> flagRST \<Longrightarrow> processFlags flags s = (None, s)"
  by (simp add: processFlags_def)

text \<open>
  C7, amended: for a data frame longer than \<open>recvWindow\<close>, \<^verbatim>\<open>readData\<close> appends
  nothing to \<open>recvBuf\<close> and leaves \<open>recvWindow\<close> as it is. It returns
  \<^verbatim>\<open>ErrRecvWindowExceeded\<close>, unless processing the flags of the frame has failed
  already, whose error it then returns. The state of the stream is the one the flags of
  the frame lead to; when the frame carries none of ACK, FIN and RST, the state is
  unchanged and the error is \<^verbatim>\<open>ErrRecvWindowExceeded\<close>.
\<close>

theorem readData_window_exceeded:
  "recvWindow s < len \<longrightarrow>
   fst (readData len flags conn s) =
     (case fst (processFlags flags s) of None \<Rightarrow> Some ErrRecvWindowExceeded | Some e \<Rightarrow> Some e) \<and>
   recvBuf (snd (readData len flags conn s)) = recvBuf s \<and>
   recvWindow (snd (readData len flags conn s)) = recvWindow s \<and>
   state (snd (readData len flags conn s)) = state (snd (processFlags flags s)) \<and>
   (flags AND flagACK \<noteq> flagACK \<and> flags AND flagFIN \<noteq> flagFIN \<and>
    flags AND flagRST \<noteq> flagRST \<longrightarrow>
      fst (readData len flags conn s) = Some ErrRecvWindowExceeded \<and>
      state (snd (readData len flags conn s)) = state s)"
proof (intro impI)
  assume a: "recvWindow s < len"
  obtain err s1 where pf: "processFlags flags s = (err, s1)" by (cases "processFlags flags s")
  have f: "recvBuf s1 = recvBuf s" "recvWindow s1 = recvWindow s"
    using processFlags_fields [of flags s] by (simp_all add: pf)
  have n0: "len \<noteq> 0" using a by auto
  have r: "readData len flags conn s =
     (case err of Some e \<Rightarrow> (Some e, s1)
      | None \<Rightarrow> (Some ErrRecvWindowExceeded,
           s1\<lparr>session := Printf (LogRecvWindowExceeded (stream_id s1) (recvWindow s1) len)
                        (session s1)\<rparr>))"
    using a n0 by (simp add: readData_def pf f Let_def split: option.splits)
  show "fst (readData len flags conn s) =
     (case fst (processFlags flags s) of None \<Rightarrow> Some ErrRecvWindowExceeded | Some e \<Rightarrow> Some e) \<and>
   recvBuf (snd (readData len flags conn s)) = recvBuf s \<and>
   recvWindow (snd (readData len flags conn s)) = recvWindow s \<and>
   state (snd (readData len flags conn s)) = state (snd (processFlags flags s)) \<and>
   (flags AND flagACK \<noteq> flagACK \<and> flags AND flagFIN \<noteq> flagFIN \<and>
    flags AND flagRST \<noteq> flagRST \<longrightarrow>
      fst (readData len flags conn s) = Some ErrRecvWindowExceeded \<and>
      state (snd (readData len flags conn s)) = state s)"
    using pf f processFlags_no_flags [of flags s]
    by (cases err) (auto simp: r)
qed

theorem readData_window_exceeded_witness:
  "recvWindow (newStream session0 1 streamEstablished) < 262145 \<and>
   0 AND flagACK \<noteq> flagACK \<and> 0 AND flagFIN \<noteq> flagFIN \<and> 0 AND flagRST \<noteq> flagRST \<and>
   fst (readData 262145 0 conn78 (newStream session0 1 streamEstablished)) =
     Some ErrRecvWindowExceeded \<and>
   recvBuf (snd (readData 262145 0 conn78 (newStream session0 1 streamEstablished))) = None \<and>
   recvWindow (snd (readData 262145 0 conn78 (newStream session0 1 streamEstablished))) =
     262144 \<and>
   state (snd (readData 262145 0 conn78 (newStream session0 1 streamEstablished))) =
     streamEstablished"
proof -
  have a: "recvWindow (newStream session0 1 streamEstablished) < 262145"
    "recvWindow (newStream session0 1 streamEstablished) = 262144"
    "recvBuf (newStream session0 1 streamEstablished) = None"
    "state (newStream session0 1 streamEstablished) = streamEstablished"
    by (simp_all add: newStream_def initialStreamWindow_def)
  have b: "0 AND flagACK \<noteq> flagACK" "0 AND flagFIN \<noteq> flagFIN" "0 AND flagRST \<noteq> flagRST"
    by (simp_all add: flagACK_def flagFIN_def flagRST_def)
  from readData_window_exceeded [of "newStream session0 1 streamEstablished" 262145 0 conn78] a b
  show ?thesis by (simp add: processFlags_def)
qed


subsection \<open>Bytes in, bytes out\<close>

lemma sendWindowUpdate_recvBuf: "recvBuf (snd (sendWindowUpdate s)) = recvBuf s"
proof -
  obtain fl s1 where sf: "sendFlags s = (fl, s1)" by (cases "sendFlags s")
  have "recvBuf s1 = recvBuf s" using sendFlags_fields [of s] by (simp add: sf)
  then show ?thesis
    by (simp add: sendWindowUpdate_def Let_def sf split: prod.splits)
qed

lemma Read_return_buffered: "buffered (snd (Read_return r s)) = buffered s"
  by (cases r) (simp add: Read_return_def buffered_def)

lemma Read_return_bytes: "fst (snd (fst (Read_return (k, bs, e) s))) = bs"
  by (simp add: Read_return_def)

lemma Read_data_buffered:
  "fst (snd (fst (Read_data n s))) @ buffered (snd (Read_data n s)) = buffered s"
proof (cases "recvBuf s")
  case None
  then show ?thesis by (simp add: Read_data_def buffered_def)
next
  case (Some buf)
  let ?s0 = "s\<lparr>recvBuf := Some (drop (min n (length buf)) buf)\<rparr>"
  obtain err s1 where u: "sendWindowUpdate ?s0 = (err, s1)" by (cases "sendWindowUpdate ?s0")
  have "recvBuf s1 = Some (drop (min n (length buf)) buf)"
    using sendWindowUpdate_recvBuf [of ?s0] by (simp add: u)
  then show ?thesis
    using Some u by (simp add: Read_data_def Let_def Read_return_def buffered_def)
qed

lemma Read_loop_buffered:
  "fst (snd (fst (Read_loop n s))) @ buffered (snd (Read_loop n s)) = buffered s"
  by (cases "state s")
     (simp_all add: Read_loop_def Read_data_buffered Read_return_buffered Read_return_bytes)

lemma Read_buffered:
  "fst (snd (fst (Read n s))) @ buffered (snd (Read n s)) = buffered s"
  by (simp add: Read_def Read_loop_buffered Read_return_buffered Read_return_bytes)

lemma Read_select_buffered:
  "fst (snd (fst (Read_select w n s))) @ buffered (snd (Read_select w n s)) = buffered s"
proof (cases w)
  case Notified
  then show ?thesis
    using Read_loop_buffered [of n "s\<lparr>recvNotifyCh := False\<rparr>"]
    by (simp add: Read_select_def buffered_def)
next
  case TimedOut
  then show ?thesis
    by (simp add: Read_select_def Read_return_buffered Read_return_bytes)
qed

lemma io_Copy_accepted: "io_Copy N conn = (copied, None) \<Longrightarrow> copied = take N (pending conn)"
  by (auto simp: io_Copy_def split: if_splits)

lemma readData_accepted:
  assumes "readData len flags conn s = (None, s')"
  shows "buffered s' = buffered s @ take (unat len) (pending conn)"
proof -
  obtain err s1 where pf: "processFlags flags s = (err, s1)" by (cases "processFlags flags s")
  have f: "recvBuf s1 = recvBuf s" using processFlags_fields [of flags s] by (simp add: pf)
  obtain copied cerr where c: "io_Copy (unat len) conn = (copied, cerr)"
    by (cases "io_Copy (unat len) conn")
  show ?thesis
  proof (cases "len = 0")
    case True
    with assms pf f show ?thesis
      by (auto simp: readData_def buffered_def split: option.splits)
  next
    case False
    with assms pf have e: "err = None" "\<not> recvWindow s1 < len" "cerr = None"
      by (auto simp: readData_def Let_def c split: option.splits if_splits)
    from c e(3) have "copied = take (unat len) (pending conn)"
      by (simp add: io_Copy_accepted)
    with assms pf False e c f show ?thesis
      by (auto simp: readData_def Let_def buffered_def split: option.splits)
  qed
qed

text \<open>
  C4, as the claim has it: the bytes handed to the user are the bodies of the accepted
  frames. They need not be: after a frame of two bytes and an empty data frame with
  RST, both accepted, every \<^verbatim>\<open>Read\<close> returns \<^verbatim>\<open>ErrConnectionReset\<close>; the user gets
  nothing of the two bytes.
\<close>

theorem bytes_lost_at_reset:
  "map_option fst
     (receive [Data_frame 2 0 conn78, Data_frame 0 flagRST conn_empty, User_Read 2, User_Read 2]
        (newStream session0 1 streamEstablished)) = Some [] \<and>
   frame_bodies
     [Data_frame 2 0 conn78, Data_frame 0 flagRST conn_empty, User_Read 2, User_Read 2] =
     [7, 8]"
  by code_simp

text \<open>
  C4, amended: for every interleaving of accepted data frames and passes of \<^verbatim>\<open>Read\<close>
  calls on one stream, the bytes handed to the user, followed by the bytes still in the
  receive buffer, are what the buffer held at the start followed by the bodies of the
  frames in the order of their arrival. On a stream that starts with an empty buffer the
  user's bytes are a prefix of the bodies, in order, and all of them once the buffer is
  empty again.
\<close>

theorem receive_delivers_in_order:
  "receive cs s = Some (delivered, s') \<longrightarrow>
     delivered @ buffered s' = buffered s @ frame_bodies cs \<and>
     (buffered s = [] \<and> buffered s' = [] \<longrightarrow> delivered = frame_bodies cs)"
proof -
  have main: "receive cs s = Some (delivered, s') \<Longrightarrow>
      delivered @ buffered s' = buffered s @ frame_bodies cs"
  proof (induction cs arbitrary: s delivered)
    case Nil
    then show ?case by simp
  next
    case (Cons c cs)
    show ?case
    proof (cases c)
      case (Data_frame len flags conn)
      obtain err s1 where r: "readData len flags conn s = (err, s1)"
        by (cases "readData len flags conn s")
      with Cons.prems Data_frame have e: "err = None" and rest: "receive cs s1 = Some (delivered, s')"
        by (auto split: option.splits)
      from readData_accepted [OF r [unfolded e]] Cons.IH [OF rest] Data_frame
      show ?thesis by simp
    next
      case (User_Read n)
      obtain k bs st s1 where r: "Read n s = ((k, bs, st), s1)"
        by (cases "Read n s") auto
      with Cons.prems User_Read obtain ds where
        rest: "receive cs s1 = Some (ds, s')" and d: "delivered = bs @ ds"
        by (auto split: option.splits)
      from Read_buffered [of n s] r have "bs @ buffered s1 = buffered s" by simp
      with Cons.IH [OF rest] d User_Read show ?thesis
        by (metis append.assoc frame_bodies.simps(3))
    next
      case (User_Read_select w n)
      obtain k bs st s1 where r: "Read_select w n s = ((k, bs, st), s1)"
        by (cases "Read_select w n s") auto
      with Cons.prems User_Read_select obtain ds where
        rest: "receive cs s1 = Some (ds, s')" and d: "delivered = bs @ ds"
        by (auto split: option.splits)
      from Read_select_buffered [of w n s] r have "bs @ buffered s1 = buffered s" by simp
      with Cons.IH [OF rest] d User_Read_select show ?thesis
        by (metis append.assoc frame_bodies.simps(4))
    qed
  qed
  then show ?thesis by auto
qed

theorem receive_delivers_in_order_witness:
  "receive [Data_frame 2 0 conn78, User_Read 1, Data_frame 2 0 conn78, User_Read 5]
     (newStream session0 1 streamSYNReceived) =
     Some ([7, 8, 7, 8],
       run [Call_readData 2 0 conn78, Call_Read 1, Call_readData 2 0 conn78, Call_Read 5]
         (newStream session0 1 streamSYNReceived)) \<and>
   buffered (newStream session0 1 streamSYNReceived) = [] \<and>
   buffered (run [Call_readData 2 0 conn78, Call_Read 1, Call_readData 2 0 conn78, Call_Read 5]
         (newStream session0 1 streamSYNReceived)) = [] \<and>
   frame_bodies [Data_frame 2 0 conn78, User_Read 1, Data_frame 2 0 conn78, User_Read 5] =
     [7, 8, 7, 8]"
proof -
  have a: "receive [Data_frame 2 0 conn78, User_Read 1, Data_frame 2 0 conn78, User_Read 5]
     (newStream session0 1 streamSYNReceived) =
     Some ([7, 8, 7, 8],
       run [Call_readData 2 0 conn78, Call_Read 1, Call_readData 2 0 conn78, Call_Read 5]
         (newStream session0 1 streamSYNReceived))"
    by code_simp
  have b: "buffered (newStream session0 1 streamSYNReceived) = []"
    "buffered (run [Call_readData 2 0 conn78, Call_Read 1, Call_readData 2 0 conn78, Call_Read 5]
         (newStream session0 1 streamSYNReceived)) = []"
    by code_simp+
  from receive_delivers_in_order [of "[Data_frame 2 0 conn78, User_Read 1, Data_frame 2 0 conn78, User_Read 5]"
      "newStream session0 1 streamSYNReceived" "[7, 8, 7, 8]"
      "run [Call_readData 2 0 conn78, Call_Read 1, Call_readData 2 0 conn78, Call_Read 5]
         (newStream session0 1 streamSYNReceived)"] a b
  show ?thesis by simp
qed

end
